theory Spec2Isabelle
  imports Main "HOL-Library.Word"
begin

unbundle bit_operations_syntax

section \<open>JavaScript strings\<close>

text \<open>
  A JavaScript string is a sequence of UTF-16 code units; \<open>length\<close> counts code units.
  Literals of the source are written \<open>js ''...''\<close>.
\<close>

type_synonym jsstring = "16 word list"

definition js :: "string \<Rightarrow> jsstring" where
  "js s = map of_char s"

definition LF :: "16 word" where "LF = 0x000A"
definition CR :: "16 word" where "CR = 0x000D"
definition LS :: "16 word" where "LS = 0x2028"
definition PS :: "16 word" where "PS = 0x2029"
definition plus_sign :: "16 word" where "plus_sign = 0x002B"
definition minus_sign :: "16 word" where "minus_sign = 0x002D"
definition slash :: "16 word" where "slash = 0x002F"
definition period :: "16 word" where "period = 0x002E"
definition comma :: "16 word" where "comma = 0x002C"

text \<open>\<open>s.includes(sub)\<close>: \<open>sub\<close> occurs in \<open>s\<close> as a contiguous run of code units.\<close>

fun includes_str :: "jsstring \<Rightarrow> jsstring \<Rightarrow> bool" where
  "includes_str [] sub = (sub = [])"
| "includes_str (u # us) sub = (take (length sub) (u # us) = sub \<or> includes_str us sub)"

text \<open>
  \<open>s.split(sep)\<close> for a separator of one code unit, generalised to a class of separators:
  the pieces between separators, in order; never the empty array.
\<close>

fun split_where :: "(16 word \<Rightarrow> bool) \<Rightarrow> jsstring \<Rightarrow> jsstring list" where
  "split_where P [] = [[]]"
| "split_where P (u # us) =
     (if P u then [] # split_where P us
      else (case split_where P us of
              [] \<Rightarrow> [[u]]
            | piece # pieces \<Rightarrow> (u # piece) # pieces))"

definition split_str :: "16 word \<Rightarrow> jsstring \<Rightarrow> jsstring list" where
  "split_str sep s = split_where (\<lambda>u. u = sep) s"

text \<open>\<open>xs.join(sep)\<close>.\<close>

fun join :: "jsstring \<Rightarrow> jsstring list \<Rightarrow> jsstring" where
  "join sep [] = []"
| "join sep [x] = x"
| "join sep (x # y # ys) = x @ sep @ join sep (y # ys)"

text \<open>\<open>xs.pop()\<close> (the value it returns) and \<open>xs[0]\<close>: \<open>undefined\<close> is \<open>None\<close>.\<close>

definition pop :: "'a list \<Rightarrow> 'a option" where
  "pop xs = (if xs = [] then None else Some (last xs))"

definition at0 :: "'a list \<Rightarrow> 'a option" where
  "at0 xs = (case xs of [] \<Rightarrow> None | x # _ \<Rightarrow> Some x)"

text \<open>
  The regular expressions \<open>/^\+/gm\<close> and \<open>/^\-/gm\<close>. With the \<open>m\<close> flag, \<open>^\<close> holds at
  index 0 and right after a line terminator (LF, CR, U+2028, U+2029); with the \<open>g\<close> flag,
  \<open>match\<close> returns every match, or \<open>null\<close> when there is none.
\<close>

definition isLineTerminator :: "16 word \<Rightarrow> bool" where
  "isLineTerminator u = (u = LF \<or> u = CR \<or> u = LS \<or> u = PS)"

fun lineStartMatches :: "16 word \<Rightarrow> bool \<Rightarrow> jsstring \<Rightarrow> jsstring list" where
  "lineStartMatches c atStart [] = []"
| "lineStartMatches c atStart (u # us) =
     (if atStart \<and> u = c then [[u]] else []) @ lineStartMatches c (isLineTerminator u) us"

definition match_gm :: "16 word \<Rightarrow> jsstring \<Rightarrow> jsstring list option" where
  "match_gm c s = (case lineStartMatches c True s of [] \<Rightarrow> None | m # ms \<Rightarrow> Some (m # ms))"

text \<open>\<open>s.match(re)?.length || 0\<close>\<close>

definition match_length :: "16 word \<Rightarrow> jsstring \<Rightarrow> int" where
  "match_length c s =
     (case match_gm c s of
        None \<Rightarrow> 0
      | Some ms \<Rightarrow> (if int (length ms) = 0 then 0 else int (length ms)))"

text \<open>
  A number in a template literal. The numbers of this program are integers far below
  \<open>10^21\<close>, which JavaScript prints in decimal, with a minus sign when negative.
\<close>

definition digit :: "nat \<Rightarrow> 16 word" where
  "digit d = 0x0030 + of_nat d"

function nat_toString :: "nat \<Rightarrow> jsstring" where
  "nat_toString n = (if n < 10 then [digit n] else nat_toString (n div 10) @ [digit (n mod 10)])"
  by pat_completeness auto
termination
  by (relation "measure id") auto

declare nat_toString.simps [simp del]

definition number_toString :: "int \<Rightarrow> jsstring" where
  "number_toString i = (if i < 0 then minus_sign # nat_toString (nat (- i)) else nat_toString (nat i))"

section \<open>generateCommitMessage\<close>

record change =
  file_name :: jsstring
  diff :: jsstring

datatype commit_type = Feat | Fix | Docs | Style | Refactor | Test | Chore

fun type_str :: "commit_type \<Rightarrow> jsstring" where
  "type_str Feat = js ''feat''"
| "type_str Fix = js ''fix''"
| "type_str Docs = js ''docs''"
| "type_str Style = js ''style''"
| "type_str Refactor = js ''refactor''"
| "type_str Test = js ''test''"
| "type_str Chore = js ''chore''"

record commit_input =
  changes :: "change list"
  type :: "commit_type option"

record commit_stats =
  addedLines :: int
  removedLines :: int
  filesChanged :: int

record commit_result =
  message :: jsstring
  result_type :: commit_type
  stats :: commit_stats

datatype js_error = TypeError

text \<open>The four \<open>changes.some(...)\<close> tests of the source.\<close>

definition hasNewFeatures :: "change list \<Rightarrow> bool" where
  "hasNewFeatures cs =
     list_ex (\<lambda>change.
        includes_str (diff change) (js ''+ '') \<and>
        (includes_str (diff change) (js ''function'') \<or>
         includes_str (diff change) (js ''class'') \<or>
         includes_str (diff change) (js ''export''))) cs"

definition hasBugFixes :: "change list \<Rightarrow> bool" where
  "hasBugFixes cs =
     list_ex (\<lambda>change.
        includes_str (diff change) (js ''fix'') \<or>
        includes_str (diff change) (js ''bug'') \<or>
        includes_str (diff change) (js ''error'')) cs"

definition hasDocChanges :: "change list \<Rightarrow> bool" where
  "hasDocChanges cs =
     list_ex (\<lambda>change.
        includes_str (file_name change) (js ''README'') \<or>
        includes_str (file_name change) (js ''.md'') \<or>
        includes_str (diff change) (js ''@param'') \<or>
        includes_str (diff change) (js ''@returns'')) cs"

definition hasTestChanges :: "change list \<Rightarrow> bool" where
  "hasTestChanges cs =
     list_ex (\<lambda>change.
        includes_str (file_name change) (js ''test'') \<or>
        includes_str (file_name change) (js ''spec'')) cs"

text \<open>Lines 55 to 87: the category, from the caller's \<open>type\<close> or from the tests.\<close>

definition suggestedType :: "commit_input \<Rightarrow> commit_type" where
  "suggestedType inp =
     (case type inp of
        Some t \<Rightarrow> t
      | None \<Rightarrow>
          (if hasNewFeatures (changes inp) then Feat
           else if hasBugFixes (changes inp) then Fix
           else if hasDocChanges (changes inp) then Docs
           else if hasTestChanges (changes inp) then Test
           else Chore))"

definition fileNames :: "change list \<Rightarrow> jsstring" where
  "fileNames cs = join (js '', '') (map file_name cs)"

definition count_addedLines :: "change list \<Rightarrow> int" where
  "count_addedLines cs = foldl (\<lambda>sum change. sum + match_length plus_sign (diff change)) 0 cs"

definition count_removedLines :: "change list \<Rightarrow> int" where
  "count_removedLines cs = foldl (\<lambda>sum change. sum + match_length minus_sign (diff change)) 0 cs"

text \<open>
  Lines 101 to 108. \<open>changes[0].file\<close> raises a TypeError when \<open>changes[0]\<close> is undefined;
  \<open>pop()?.split(".")[0]\<close> is undefined when \<open>pop()\<close> is.
\<close>

definition scope :: "change list \<Rightarrow> js_error + jsstring option" where
  "scope cs =
     (if length cs = 1 then
        (case at0 cs of
           None \<Rightarrow> Inl TypeError
         | Some c \<Rightarrow>
             Inr (case pop (split_str slash (file_name c)) of
                    None \<Rightarrow> None
                  | Some seg \<Rightarrow> at0 (split_str period seg)))
      else if length cs > 3 then Inr (Some (js ''multiple''))
      else if length (split_str comma (fileNames cs)) > 1 then Inr (Some (js ''files''))
      else Inr (Some (js '''')))"

text \<open>Line 110: \<open>undefined\<close> and the empty string are falsy.\<close>

definition scopeText :: "jsstring option \<Rightarrow> jsstring" where
  "scopeText sc =
     (case sc of
        None \<Rightarrow> js ''''
      | Some s \<Rightarrow> (if s = [] then js '''' else js ''('' @ s @ js '')''))"

definition description :: "commit_type \<Rightarrow> jsstring" where
  "description t =
     (if t = Feat then js ''add new functionality''
      else if t = Fix then js ''resolve issues''
      else if t = Docs then js ''update documentation''
      else if t = Refactor then js ''improve code structure''
      else if t = Test then js ''add/update tests''
      else js ''update code'')"

definition commitMessage :: "commit_type \<Rightarrow> jsstring option \<Rightarrow> change list \<Rightarrow> jsstring" where
  "commitMessage t sc cs =
     type_str t @ scopeText sc @ js '': '' @ description t @ [LF, LF] @
     js ''- Modified '' @ number_toString (int (length cs)) @ js '' file'' @
       (if length cs > 1 then js ''s'' else js '''') @ [LF] @
     js ''- Added '' @ number_toString (count_addedLines cs) @
       js '' lines, removed '' @ number_toString (count_removedLines cs) @ js '' lines'' @ [LF] @
     js ''- Files: '' @ fileNames cs"

definition generateCommitMessage :: "commit_input \<Rightarrow> js_error + commit_result" where
  "generateCommitMessage inp =
     (case scope (changes inp) of
        Inl e \<Rightarrow> Inl e
      | Inr sc \<Rightarrow>
          Inr \<lparr> message = commitMessage (suggestedType inp) sc (changes inp),
                result_type = suggestedType inp,
                stats = \<lparr> addedLines = count_addedLines (changes inp),
                          removedLines = count_removedLines (changes inp),
                          filesChanged = int (length (changes inp)) \<rparr> \<rparr>)"

section \<open>Effects: thrown values and the environment\<close>

text \<open>
  A value thrown by a library call: an \<open>Error\<close> instance with its \<open>message\<close>, or any
  other value. An effectful call takes the state of the outside world and returns the new
  state with either the thrown value (\<open>Inl\<close>) or its result (\<open>Inr\<close>).
\<close>

datatype thrown = ErrorObject jsstring | OtherValue

text \<open>\<open>error instanceof Error ? error.message : fallback\<close>\<close>

definition error_message :: "thrown \<Rightarrow> jsstring \<Rightarrow> jsstring" where
  "error_message error fallback = (case error of ErrorObject m \<Rightarrow> m | OtherValue \<Rightarrow> fallback)"

section \<open>writeMarkdownReview\<close>

text \<open>
  The calls into \<open>path\<close>, \<open>fs/promises\<close> and \<open>Date\<close> are parameters: \<open>dirname\<close> is pure,
  \<open>mkdir(dir, {recursive: true})\<close> and \<open>writeFile(path, text, "utf8")\<close> may throw and may
  change the world, \<open>new Date().toISOString()\<close> reads the clock.
\<close>

record 's fs_env =
  dirname :: "jsstring \<Rightarrow> jsstring"
  mkdir :: "jsstring \<Rightarrow> 's \<Rightarrow> (thrown + unit) \<times> 's"
  toISOString_now :: "'s \<Rightarrow> jsstring"
  writeFile :: "jsstring \<Rightarrow> jsstring \<Rightarrow> 's \<Rightarrow> (thrown + unit) \<times> 's"

record write_input =
  filePath :: jsstring
  content :: jsstring
  title :: "jsstring option"

text \<open>
  The two result objects: \<open>{success: true, filePath, size, message}\<close> and
  \<open>{success: false, filePath, error}\<close>.
\<close>

datatype write_result =
    Success jsstring int jsstring
  | Failure jsstring jsstring

fun success :: "write_result \<Rightarrow> bool" where
  "success (Success fp n msg) = True"
| "success (Failure fp err) = False"

text \<open>Line 168: an absent title and the empty title are both falsy.\<close>

definition markdownContent :: "jsstring option \<Rightarrow> jsstring \<Rightarrow> jsstring" where
  "markdownContent t c =
     (case t of
        None \<Rightarrow> c
      | Some ttl \<Rightarrow> (if ttl = [] then c else js ''# '' @ ttl @ [LF, LF] @ c))"

text \<open>Lines 172 to 178: the template literal, line breaks included.\<close>

definition fullContent :: "jsstring \<Rightarrow> jsstring \<Rightarrow> jsstring" where
  "fullContent timestamp md =
     js ''---'' @ [LF] @
     js ''generated: '' @ timestamp @ [LF] @
     js ''type: code-review'' @ [LF] @
     js ''---'' @ [LF] @
     [LF] @
     md @ [LF]"

text \<open>The body of the \<open>try\<close> block.\<close>

definition writeMarkdownReview_try ::
  "'s fs_env \<Rightarrow> write_input \<Rightarrow> 's \<Rightarrow> (thrown + write_result) \<times> 's" where
  "writeMarkdownReview_try env inp s =
     (let dir = dirname env (filePath inp) in
      case mkdir env dir s of
        (Inl e, s1) \<Rightarrow> (Inl e, s1)
      | (Inr u, s1) \<Rightarrow>
          (let md = markdownContent (title inp) (content inp);
               timestamp = toISOString_now env s1;
               full = fullContent timestamp md
           in case writeFile env (filePath inp) full s1 of
                (Inl e, s2) \<Rightarrow> (Inl e, s2)
              | (Inr u', s2) \<Rightarrow>
                  (Inr (Success (filePath inp) (int (length full))
                          (js ''Successfully wrote '' @ number_toString (int (length full)) @
                           js '' characters to '' @ filePath inp)),
                   s2)))"

text \<open>The function: the \<open>try\<close> block with its \<open>catch\<close>.\<close>

definition writeMarkdownReview ::
  "'s fs_env \<Rightarrow> write_input \<Rightarrow> 's \<Rightarrow> (thrown + write_result) \<times> 's" where
  "writeMarkdownReview env inp s =
     (case writeMarkdownReview_try env inp s of
        (Inl error, s') \<Rightarrow>
          (Inr (Failure (filePath inp) (error_message error (js ''Unknown error occurred''))), s')
      | (Inr r, s') \<Rightarrow> (Inr r, s'))"

section \<open>getGitHistory\<close>

text \<open>
  An entry of simple-git's \<open>log.all\<close> (the fields the source reads) and the object the
  source builds from it.
\<close>

record log_entry =
  entry_hash :: jsstring
  entry_date :: jsstring
  entry_message :: jsstring
  author_name :: jsstring
  author_email :: jsstring

record commit_record =
  hash :: jsstring
  date :: jsstring
  commit_message :: jsstring
  author :: jsstring
  email :: jsstring

record history_result =
  commits :: "commit_record list"
  history_error :: "jsstring option"

text \<open>\<open>simpleGit(rootDir)\<close> and \<open>git.log({maxCount})\<close> are parameters; both may throw.\<close>

record ('s, 'g) git_env =
  simpleGit :: "jsstring \<Rightarrow> 's \<Rightarrow> (thrown + 'g) \<times> 's"
  git_log :: "'g \<Rightarrow> int \<Rightarrow> 's \<Rightarrow> (thrown + log_entry list) \<times> 's"

record history_input =
  rootDir :: jsstring
  maxCount :: int

definition commit_of :: "log_entry \<Rightarrow> commit_record" where
  "commit_of commit =
     \<lparr> hash = entry_hash commit, date = entry_date commit, commit_message = entry_message commit,
       author = author_name commit, email = author_email commit \<rparr>"

definition getGitHistory_try ::
  "('s, 'g) git_env \<Rightarrow> history_input \<Rightarrow> 's \<Rightarrow> (thrown + history_result) \<times> 's" where
  "getGitHistory_try env inp s =
     (case simpleGit env (rootDir inp) s of
        (Inl e, s1) \<Rightarrow> (Inl e, s1)
      | (Inr git, s1) \<Rightarrow>
          (case git_log env git (maxCount inp) s1 of
             (Inl e, s2) \<Rightarrow> (Inl e, s2)
           | (Inr all, s2) \<Rightarrow> (Inr \<lparr> commits = map commit_of all, history_error = None \<rparr>, s2)))"

definition getGitHistory ::
  "('s, 'g) git_env \<Rightarrow> history_input \<Rightarrow> 's \<Rightarrow> (thrown + history_result) \<times> 's" where
  "getGitHistory env inp s =
     (case getGitHistory_try env inp s of
        (Inl error, s') \<Rightarrow>
          (Inr \<lparr> commits = [],
                 history_error = Some (error_message error (js ''Failed to get git history'')) \<rparr>, s')
      | (Inr r, s') \<Rightarrow> (Inr r, s'))"

section \<open>An in-memory file system\<close>

text \<open>
  \<open>writeFile(path, text, "utf8")\<close> stores the UTF-8 encoding of the text. Node encodes a
  surrogate pair as one code point of four bytes and replaces a lone surrogate by U+FFFD.
\<close>

definition isHighSurrogate :: "16 word \<Rightarrow> bool" where
  "isHighSurrogate u = (0xD800 \<le> u \<and> u \<le> 0xDBFF)"

definition isLowSurrogate :: "16 word \<Rightarrow> bool" where
  "isLowSurrogate u = (0xDC00 \<le> u \<and> u \<le> 0xDFFF)"

definition utf8_of_codepoint :: "nat \<Rightarrow> 8 word list" where
  "utf8_of_codepoint cp =
     (if cp < 0x80 then [of_nat cp]
      else if cp < 0x800 then [0xC0 + of_nat (cp div 64), 0x80 + of_nat (cp mod 64)]
      else if cp < 0x10000 then
        [0xE0 + of_nat (cp div 4096), 0x80 + of_nat (cp div 64 mod 64), 0x80 + of_nat (cp mod 64)]
      else
        [0xF0 + of_nat (cp div 262144), 0x80 + of_nat (cp div 4096 mod 64),
         0x80 + of_nat (cp div 64 mod 64), 0x80 + of_nat (cp mod 64)])"

definition scalar_of_unit :: "16 word \<Rightarrow> nat" where
  "scalar_of_unit u = (if isHighSurrogate u \<or> isLowSurrogate u then 0xFFFD else unat u)"

fun utf8_encode :: "jsstring \<Rightarrow> 8 word list" where
  "utf8_encode [] = []"
| "utf8_encode [u] = utf8_of_codepoint (scalar_of_unit u)"
| "utf8_encode (u # v # vs) =
     (if isHighSurrogate u \<and> isLowSurrogate v
      then utf8_of_codepoint (0x10000 + (unat u - 0xD800) * 0x400 + (unat v - 0xDC00)) @
           utf8_encode vs
      else utf8_of_codepoint (scalar_of_unit u) @ utf8_encode (v # vs))"

text \<open>
  The state of the file system: the bytes of every file, the paths the process may not
  create or write, and the clock's reading.
\<close>

record memfs =
  files :: "jsstring \<Rightarrow> 8 word list option"
  denied :: "jsstring \<Rightarrow> bool"
  clock :: jsstring

definition mem_mkdir :: "jsstring \<Rightarrow> memfs \<Rightarrow> (thrown + unit) \<times> memfs" where
  "mem_mkdir dir s =
     (if denied s dir then (Inl (ErrorObject (js ''EACCES: permission denied, mkdir'')), s)
      else (Inr (), s))"

definition mem_writeFile :: "jsstring \<Rightarrow> jsstring \<Rightarrow> memfs \<Rightarrow> (thrown + unit) \<times> memfs" where
  "mem_writeFile path text s =
     (if denied s path then (Inl (ErrorObject (js ''EACCES: permission denied, open'')), s)
      else (Inr (), s\<lparr> files := (files s)(path := Some (utf8_encode text)) \<rparr>))"

definition mem_env :: "(jsstring \<Rightarrow> jsstring) \<Rightarrow> memfs fs_env" where
  "mem_env dn = \<lparr> dirname = dn, mkdir = mem_mkdir, toISOString_now = clock, writeFile = mem_writeFile \<rparr>"

section \<open>What the specification says, for comparison\<close>

text \<open>The lines of a text, and a line that begins with a marker.\<close>

definition spec_lines :: "jsstring \<Rightarrow> jsstring list" where
  "spec_lines s = split_where isLineTerminator s"

definition begins_with :: "16 word \<Rightarrow> jsstring \<Rightarrow> bool" where
  "begins_with c l = (case l of [] \<Rightarrow> False | u # us \<Rightarrow> u = c)"

text \<open>A line that begins with one marker and not with two: the header lines are left out.\<close>

definition begins_with_single :: "16 word \<Rightarrow> jsstring \<Rightarrow> bool" where
  "begins_with_single c l =
     (case l of [] \<Rightarrow> False | [u] \<Rightarrow> u = c | u # v # vs \<Rightarrow> u = c \<and> v \<noteq> c)"

definition spec_marked_lines :: "16 word \<Rightarrow> change list \<Rightarrow> int" where
  "spec_marked_lines c cs =
     sum_list (map (\<lambda>ch. int (length (filter (begins_with_single c) (spec_lines (diff ch))))) cs)"

text \<open>Every line that begins with the marker, header lines included.\<close>

definition marked_lines :: "16 word \<Rightarrow> change list \<Rightarrow> int" where
  "marked_lines c cs =
     sum_list (map (\<lambda>ch. int (length (filter (begins_with c) (spec_lines (diff ch))))) cs)"

text \<open>
  The classifier as an ordered list of predicate and category pairs, the first match
  deciding.
\<close>

definition spec_classify :: "commit_type option \<Rightarrow> change list \<Rightarrow> commit_type" where
  "spec_classify hint cs =
     (case hint of
        Some h \<Rightarrow> h
      | None \<Rightarrow>
          (case find (\<lambda>(p, c). p cs)
                  [(hasNewFeatures, Feat), (hasBugFixes, Fix), (hasDocChanges, Docs),
                   (hasTestChanges, Test)] of
             Some (p, c) \<Rightarrow> c
           | None \<Rightarrow> Chore))"

text \<open>
  The \<open>feat\<close> predicate in the specification's words: some diff has an added line that
  mentions a declaration keyword.
\<close>

definition mentions_declaration :: "jsstring \<Rightarrow> bool" where
  "mentions_declaration l =
     (includes_str l (js ''function'') \<or> includes_str l (js ''class'') \<or>
      includes_str l (js ''export''))"

definition spec_feat :: "change list \<Rightarrow> bool" where
  "spec_feat cs =
     list_ex (\<lambda>ch. list_ex (\<lambda>l. begins_with plus_sign l \<and> mentions_declaration l)
                      (spec_lines (diff ch))) cs"

text \<open>
  The final path segment (what follows the last slash) and the base name with its
  extension stripped (what precedes the first period of that segment).
\<close>

definition final_segment :: "jsstring \<Rightarrow> jsstring" where
  "final_segment p = rev (takeWhile (\<lambda>u. u \<noteq> slash) (rev p))"

definition spec_base_name :: "jsstring \<Rightarrow> jsstring" where
  "spec_base_name p = takeWhile (\<lambda>u. u \<noteq> period) (final_segment p)"

text \<open>The scope in the specification's words, with the names of the files that changed.\<close>

definition spec_scope :: "jsstring list \<Rightarrow> jsstring" where
  "spec_scope names =
     (if length names = 1 then spec_base_name (hd names)
      else if length names > 3 then js ''multiple''
      else if card (set names) > 1 then js ''files''
      else [])"

text \<open>The file format: the metadata block and the title heading.\<close>

definition metadata_header :: "jsstring \<Rightarrow> jsstring" where
  "metadata_header timestamp =
     js ''---'' @ [LF] @ js ''generated: '' @ timestamp @ [LF] @
     js ''type: code-review'' @ [LF] @ js ''---'' @ [LF] @ [LF]"

definition title_heading :: "jsstring option \<Rightarrow> jsstring" where
  "title_heading t =
     (case t of
        None \<Rightarrow> []
      | Some ttl \<Rightarrow> (if ttl = [] then [] else js ''# '' @ ttl @ [LF, LF]))"

text \<open>Stripping a known prefix from what was read back.\<close>

definition strip_prefix :: "'a list \<Rightarrow> 'a list \<Rightarrow> 'a list option" where
  "strip_prefix p xs = (if take (length p) xs = p then Some (drop (length p) xs) else None)"

section \<open>Strings: substrings, splitting, lines\<close>

lemma includes_str_iff: "includes_str s sub \<longleftrightarrow> (\<exists>a b. s = a @ sub @ b)"
proof (induction s)
  case Nil
  then show ?case by auto
next
  case (Cons u us)
  show ?case
  proof
    assume "includes_str (u # us) sub"
    then consider "take (length sub) (u # us) = sub" | "includes_str us sub" by auto
    then show "\<exists>a b. u # us = a @ sub @ b"
    proof cases
      case 1
      then have "u # us = [] @ sub @ drop (length sub) (u # us)"
        by (metis append_Nil append_take_drop_id)
      then show ?thesis by blast
    next
      case 2
      with Cons.IH obtain a b where "us = a @ sub @ b" by auto
      then have "u # us = (u # a) @ sub @ b" by simp
      then show ?thesis by blast
    qed
  next
    assume "\<exists>a b. u # us = a @ sub @ b"
    then obtain a b where ab: "u # us = a @ sub @ b" by auto
    show "includes_str (u # us) sub"
    proof (cases a)
      case Nil
      with ab have "take (length sub) (u # us) = sub" by simp
      then show ?thesis by simp
    next
      case (Cons a0 a')
      with ab have "us = a' @ sub @ b" by simp
      with Cons.IH have "includes_str us sub" by blast
      then show ?thesis by simp
    qed
  qed
qed

lemma split_where_not_Nil: "split_where P s \<noteq> []"
  by (induction s) (auto split: list.splits)

lemma length_split_where: "length (split_where P s) = Suc (length (filter P s))"
  by (induction s) (auto split: list.splits simp: split_where_not_Nil)

lemma hd_split_where: "hd (split_where P s) = takeWhile (\<lambda>u. \<not> P u) s"
  by (induction s) (auto split: list.splits simp: split_where_not_Nil)

lemma last_split_where: "last (split_where P s) = rev (takeWhile (\<lambda>u. \<not> P u) (rev s))"
proof (induction s)
  case Nil
  then show ?case by simp
next
  case (Cons u us)
  obtain piece pieces where sp: "split_where P us = piece # pieces"
    using split_where_not_Nil [of P us] by (cases "split_where P us") auto
  show ?case
  proof (cases "\<forall>x\<in>set us. \<not> P x")
    case True
    then have "filter P us = []" by (simp add: filter_empty_conv)
    then have "length (split_where P us) = 1" by (simp add: length_split_where)
    with sp have pieces: "pieces = []" by simp
    from True have tw: "takeWhile (\<lambda>u. \<not> P u) (rev us) = rev us" by simp
    with Cons.IH sp pieces have "piece = us" by simp
    from True have "takeWhile (\<lambda>u. \<not> P u) (rev us @ [u]) = rev us @ takeWhile (\<lambda>u. \<not> P u) [u]"
      by (intro takeWhile_append2) simp
    with sp pieces \<open>piece = us\<close> show ?thesis by simp
  next
    case False
    then obtain x where "x \<in> set (rev us)" "\<not> \<not> P x" by auto
    then have "takeWhile (\<lambda>u. \<not> P u) (rev us @ [u]) = takeWhile (\<lambda>u. \<not> P u) (rev us)"
      by (rule takeWhile_append1)
    moreover from False have "length (filter P us) > 0" by (simp add: filter_empty_conv)
    then have "pieces \<noteq> []" using sp length_split_where [of P us] by auto
    ultimately show ?thesis using Cons.IH sp by auto
  qed
qed

lemma lineStartMatches_lines:
  "\<not> isLineTerminator c \<Longrightarrow>
   length (lineStartMatches c b s) =
   length (filter (begins_with c)
      (if b then split_where isLineTerminator s else tl (split_where isLineTerminator s)))"
proof (induction s arbitrary: b)
  case Nil
  then show ?case by (simp add: begins_with_def)
next
  case (Cons u us)
  obtain piece pieces where sp: "split_where isLineTerminator us = piece # pieces"
    using split_where_not_Nil [of isLineTerminator us]
    by (cases "split_where isLineTerminator us") auto
  show ?case
  proof (cases "isLineTerminator u")
    case True
    with Cons.prems have "u \<noteq> c" by auto
    with True Cons.IH [OF Cons.prems, of True] show ?thesis
      by (simp add: begins_with_def)
  next
    case False
    with Cons.IH [OF Cons.prems, of False] sp show ?thesis
      by (simp add: begins_with_def)
  qed
qed

lemma match_length_lines:
  "\<not> isLineTerminator c \<Longrightarrow>
   match_length c s = int (length (filter (begins_with c) (spec_lines s)))"
proof -
  assume "\<not> isLineTerminator c"
  then have "length (lineStartMatches c True s) =
      length (filter (begins_with c) (split_where isLineTerminator s))"
    using lineStartMatches_lines [of c True s] by simp
  then show ?thesis
    by (cases "lineStartMatches c True s") (simp_all add: match_length_def match_gm_def spec_lines_def)
qed

lemma foldl_sum: "foldl (\<lambda>sum ch. sum + f ch) a cs = a + sum_list (map f cs)"
  for a :: int
  by (induction cs arbitrary: a) auto

lemma plus_not_terminator: "\<not> isLineTerminator plus_sign"
  by (simp add: isLineTerminator_def plus_sign_def LF_def CR_def LS_def PS_def)

lemma minus_not_terminator: "\<not> isLineTerminator minus_sign"
  by (simp add: isLineTerminator_def minus_sign_def LF_def CR_def LS_def PS_def)

lemma count_addedLines_marked: "count_addedLines cs = marked_lines plus_sign cs"
  by (simp add: count_addedLines_def marked_lines_def foldl_sum
      match_length_lines [OF plus_not_terminator])

lemma count_removedLines_marked: "count_removedLines cs = marked_lines minus_sign cs"
  by (simp add: count_removedLines_def marked_lines_def foldl_sum
      match_length_lines [OF minus_not_terminator])

lemma marked_lines_nonneg: "0 \<le> marked_lines c cs"
  unfolding marked_lines_def by (induction cs) auto

section \<open>The scope\<close>

lemma at0_split_where: "at0 (split_where P s) = Some (takeWhile (\<lambda>u. \<not> P u) s)"
  using hd_split_where [of P s] split_where_not_Nil [of P s]
  by (cases "split_where P s") (simp_all add: at0_def)

lemma pop_split_where: "pop (split_where P s) = Some (rev (takeWhile (\<lambda>u. \<not> P u) (rev s)))"
  by (simp add: pop_def split_where_not_Nil last_split_where)

lemma comma_in_fileNames: "2 \<le> length cs \<Longrightarrow> comma \<in> set (fileNames cs)"
proof -
  assume "2 \<le> length cs"
  then obtain x y ys where "cs = x # y # ys"
    by (cases cs; cases "tl cs") auto
  then show ?thesis by (simp add: fileNames_def js_def comma_def)
qed

lemma at0_Cons: "at0 (x # xs) = Some x"
  by (simp add: at0_def)

lemma split_fileNames:
  "length cs \<noteq> 1 \<Longrightarrow> (1 < length (split_str comma (fileNames cs))) = (2 \<le> length cs)"
proof (cases "2 \<le> length cs")
  case True
  then have "filter (\<lambda>u. u = comma) (fileNames cs) \<noteq> []"
    using comma_in_fileNames [of cs] by (simp add: filter_empty_conv)
  with True show ?thesis by (simp add: split_str_def length_split_where)
next
  case False
  assume "length cs \<noteq> 1"
  with False have "length cs = 0" by arith
  then have "cs = []" by simp
  then show ?thesis by (simp add: fileNames_def split_str_def)
qed

lemma scope_eq:
  "scope cs =
     Inr (Some (if length cs = 1 then spec_base_name (file_name (hd cs))
                else if length cs > 3 then js ''multiple''
                else if 2 \<le> length cs then js ''files''
                else []))"
proof (cases "length cs = 1")
  case True
  then obtain c where "cs = [c]" by (cases cs) auto
  then show ?thesis
    by (simp add: scope_def at0_Cons split_str_def pop_split_where at0_split_where
        spec_base_name_def final_segment_def)
next
  case False
  then show ?thesis
    using split_fileNames [of cs] by (auto simp: scope_def js_def)
qed

lemma generateCommitMessage_eq:
  "generateCommitMessage inp =
     Inr \<lparr> message = commitMessage (suggestedType inp)
                (Some (if length (changes inp) = 1 then spec_base_name (file_name (hd (changes inp)))
                       else if length (changes inp) > 3 then js ''multiple''
                       else if 2 \<le> length (changes inp) then js ''files''
                       else [])) (changes inp),
           result_type = suggestedType inp,
           stats = \<lparr> addedLines = count_addedLines (changes inp),
                     removedLines = count_removedLines (changes inp),
                     filesChanged = int (length (changes inp)) \<rparr> \<rparr>"
  by (simp add: generateCommitMessage_def scope_eq)

section \<open>Line statistics\<close>

text \<open>
  Claim C1, as the code has it. For every list of changes \<open>generateCommitMessage\<close> returns
  a result whose \<open>addedLines\<close> is the number of lines, over all diffs, that begin with
  \<open>+\<close>, whose \<open>removedLines\<close> is the number of lines that begin with \<open>-\<close>, and whose
  \<open>filesChanged\<close> is the number of entries; the three are non-negative. Every line that
  begins with the marker counts, the header lines \<open>+++\<close> and \<open>---\<close> included.
\<close>

theorem stats_count_marked_lines:
  "\<exists>r. generateCommitMessage inp = Inr r \<and>
       addedLines (stats r) = marked_lines plus_sign (changes inp) \<and>
       removedLines (stats r) = marked_lines minus_sign (changes inp) \<and>
       filesChanged (stats r) = int (length (changes inp)) \<and>
       0 \<le> addedLines (stats r) \<and> 0 \<le> removedLines (stats r) \<and> 0 \<le> filesChanged (stats r)"
  by (simp add: generateCommitMessage_eq count_addedLines_marked count_removedLines_marked
      marked_lines_nonneg)

text \<open>
  The claim as written leaves the header lines out. On the diff of one file with one line
  replaced, the code reports 2 added and 2 removed lines, where 1 line begins with a
  single \<open>+\<close> and 1 with a single \<open>-\<close>.
\<close>

theorem stats_header_lines_counterexample:
  "map_sum id stats (generateCommitMessage
      \<lparr> changes = [\<lparr> file_name = js ''a.ts'',
                      diff = js ''--- a/a.ts'' @ [LF] @ js ''+++ b/a.ts'' @ [LF] @
                             js ''@@ -1 +1 @@'' @ [LF] @ js ''-old'' @ [LF] @ js ''+new'' \<rparr>],
        type = None \<rparr>)
     = Inr \<lparr> addedLines = 2, removedLines = 2, filesChanged = 1 \<rparr> \<and>
   spec_marked_lines plus_sign
     [\<lparr> file_name = js ''a.ts'',
        diff = js ''--- a/a.ts'' @ [LF] @ js ''+++ b/a.ts'' @ [LF] @
               js ''@@ -1 +1 @@'' @ [LF] @ js ''-old'' @ [LF] @ js ''+new'' \<rparr>] = 1 \<and>
   spec_marked_lines minus_sign
     [\<lparr> file_name = js ''a.ts'',
        diff = js ''--- a/a.ts'' @ [LF] @ js ''+++ b/a.ts'' @ [LF] @
               js ''@@ -1 +1 @@'' @ [LF] @ js ''-old'' @ [LF] @ js ''+new'' \<rparr>] = 1"
  by code_simp

section \<open>The category\<close>

lemma spec_classify_eq: "spec_classify (type inp) (changes inp) = suggestedType inp"
  by (simp add: spec_classify_def suggestedType_def split: option.splits)

lemma hasBugFixes_Cons2:
  "includes_str (diff b) (js ''fix'') \<Longrightarrow> hasBugFixes [a, b]"
  by (simp add: hasBugFixes_def)

lemma hasTestChanges_a_test:
  "hasTestChanges (\<lparr> file_name = js ''a.test.ts'', diff = da \<rparr> # cs)"
proof -
  have "includes_str (js ''a.test.ts'') (js ''test'')" by code_simp
  then show ?thesis by (simp add: hasTestChanges_def)
qed

text \<open>
  Claim C2. The category that \<open>generateCommitMessage\<close> returns is the one the reference
  classifier gives: a supplied \<open>type\<close> is returned unchanged whatever the changes are;
  otherwise the tests for \<open>feat\<close>, \<open>fix\<close>, \<open>docs\<close> and \<open>test\<close> are tried in this order and
  the first that holds decides, with \<open>chore\<close> when none holds. In particular, for the two
  files \<open>a.test.ts\<close> and \<open>b.ts\<close>, with \<open>fix\<close> occurring in the diff of \<open>b.ts\<close> and the
  \<open>feat\<close> test failing on the set, the category is \<open>fix\<close>, although the \<open>test\<close> test holds.
\<close>

theorem classify_priority_order:
  "\<exists>r. generateCommitMessage \<lparr> changes = cs, type = hint \<rparr> = Inr r \<and>
       result_type r = spec_classify hint cs \<and>
       (\<forall>h. hint = Some h \<longrightarrow> result_type r = h) \<and>
       (\<forall>da db.
          hint = None \<and>
          cs = [\<lparr> file_name = js ''a.test.ts'', diff = da \<rparr>, \<lparr> file_name = js ''b.ts'', diff = db \<rparr>] \<and>
          includes_str db (js ''fix'') \<and> \<not> hasNewFeatures cs
          \<longrightarrow> hasTestChanges cs \<and> result_type r = Fix)"
proof -
  have "spec_classify hint cs = suggestedType \<lparr> changes = cs, type = hint \<rparr>"
    using spec_classify_eq [of "\<lparr> changes = cs, type = hint \<rparr>"] by simp
  moreover have "hint = Some h \<Longrightarrow> suggestedType \<lparr> changes = cs, type = hint \<rparr> = h" for h
    by (simp add: suggestedType_def)
  moreover have "hasTestChanges cs \<and> suggestedType \<lparr> changes = cs, type = hint \<rparr> = Fix"
    if "hint = None"
      and "cs = [\<lparr> file_name = js ''a.test.ts'', diff = da \<rparr>, \<lparr> file_name = js ''b.ts'', diff = db \<rparr>]"
      and "includes_str db (js ''fix'')" and "\<not> hasNewFeatures cs" for da db
  proof -
    from that(2,3) have "hasBugFixes cs" by (simp add: hasBugFixes_Cons2)
    with that(1,4) have "suggestedType \<lparr> changes = cs, type = hint \<rparr> = Fix"
      by (simp add: suggestedType_def)
    moreover from that(2) have "hasTestChanges cs" by (simp add: hasTestChanges_a_test)
    ultimately show ?thesis by simp
  qed
  ultimately show ?thesis
    by (simp add: generateCommitMessage_eq) blast
qed

text \<open>The scenario at concrete diffs, and a supplied \<open>type\<close> that no test would give.\<close>

theorem classify_priority_order_witness:
  "includes_str (js ''-  // fix the typo'') (js ''fix'') \<and>
   \<not> hasNewFeatures [\<lparr> file_name = js ''a.test.ts'', diff = js ''+ it works'' \<rparr>,
                       \<lparr> file_name = js ''b.ts'', diff = js ''-  // fix the typo'' \<rparr>] \<and>
   (\<exists>r. generateCommitMessage
          \<lparr> changes = [\<lparr> file_name = js ''a.test.ts'', diff = js ''+ it works'' \<rparr>,
                        \<lparr> file_name = js ''b.ts'', diff = js ''-  // fix the typo'' \<rparr>],
            type = None \<rparr> = Inr r \<and> result_type r = Fix) \<and>
   (\<exists>r. generateCommitMessage
          \<lparr> changes = [\<lparr> file_name = js ''a.test.ts'', diff = js ''+ it works'' \<rparr>],
            type = Some Style \<rparr> = Inr r \<and> result_type r = Style)"
proof -
  have h1: "includes_str (js ''-  // fix the typo'') (js ''fix'')" by code_simp
  have h2: "\<not> hasNewFeatures [\<lparr> file_name = js ''a.test.ts'', diff = js ''+ it works'' \<rparr>,
                       \<lparr> file_name = js ''b.ts'', diff = js ''-  // fix the typo'' \<rparr>]"
    by code_simp
  from classify_priority_order
    [of "[\<lparr> file_name = js ''a.test.ts'', diff = js ''+ it works'' \<rparr>,
          \<lparr> file_name = js ''b.ts'', diff = js ''-  // fix the typo'' \<rparr>]" None] h1 h2
  have "\<exists>r. generateCommitMessage
          \<lparr> changes = [\<lparr> file_name = js ''a.test.ts'', diff = js ''+ it works'' \<rparr>,
                        \<lparr> file_name = js ''b.ts'', diff = js ''-  // fix the typo'' \<rparr>],
            type = None \<rparr> = Inr r \<and> result_type r = Fix"
    by blast
  moreover from classify_priority_order
    [of "[\<lparr> file_name = js ''a.test.ts'', diff = js ''+ it works'' \<rparr>]" "Some Style"]
  have "\<exists>r. generateCommitMessage
          \<lparr> changes = [\<lparr> file_name = js ''a.test.ts'', diff = js ''+ it works'' \<rparr>],
            type = Some Style \<rparr> = Inr r \<and> result_type r = Style"
    by blast
  ultimately show ?thesis using h1 h2 by blast
qed

lemma hasNewFeatures_iff:
  "hasNewFeatures cs \<longleftrightarrow>
     (\<exists>ch\<in>set cs. (\<exists>a b. diff ch = a @ js ''+ '' @ b) \<and>
        ((\<exists>a b. diff ch = a @ js ''function'' @ b) \<or>
         (\<exists>a b. diff ch = a @ js ''class'' @ b) \<or>
         (\<exists>a b. diff ch = a @ js ''export'' @ b)))"
  by (simp add: hasNewFeatures_def list_ex_iff includes_str_iff)

lemma suggestedType_Feat:
  "type inp = None \<Longrightarrow> (suggestedType inp = Feat) = hasNewFeatures (changes inp)"
  by (simp add: suggestedType_def)

text \<open>
  Claim C3, as the code has it. With no \<open>type\<close> supplied, the category is \<open>feat\<close> exactly
  when some diff contains the two characters \<open>+\<close> and space somewhere and contains
  \<open>function\<close>, \<open>class\<close> or \<open>export\<close> somewhere: neither has to be at the start of a line,
  and the keyword does not have to be on an added line.
\<close>

theorem feat_iff_marker_and_keyword_anywhere:
  assumes "type inp = None"
  shows "\<exists>r. generateCommitMessage inp = Inr r \<and>
       (result_type r = Feat \<longleftrightarrow>
          (\<exists>ch\<in>set (changes inp). (\<exists>a b. diff ch = a @ js ''+ '' @ b) \<and>
             ((\<exists>a b. diff ch = a @ js ''function'' @ b) \<or>
              (\<exists>a b. diff ch = a @ js ''class'' @ b) \<or>
              (\<exists>a b. diff ch = a @ js ''export'' @ b))))"
  using assms
  by (simp add: generateCommitMessage_eq suggestedType_Feat hasNewFeatures_iff)

text \<open>The specification's scenario: one added line that exports a function.\<close>

theorem feat_iff_marker_and_keyword_anywhere_witness:
  "type \<lparr> changes = [\<lparr> file_name = js ''auth.ts'', diff = js ''+ export function login() {}'' \<rparr>],
          type = None \<rparr> = None \<and>
   (\<exists>r. generateCommitMessage
          \<lparr> changes = [\<lparr> file_name = js ''auth.ts'', diff = js ''+ export function login() {}'' \<rparr>],
            type = None \<rparr> = Inr r \<and> result_type r = Feat)"
proof -
  have "includes_str (js ''+ export function login() {}'') (js ''+ '')" by code_simp
  then have m: "\<exists>a b. js ''+ export function login() {}'' = a @ js ''+ '' @ b"
    by (simp only: includes_str_iff)
  have "includes_str (js ''+ export function login() {}'') (js ''function'')" by code_simp
  then have k: "\<exists>a b. js ''+ export function login() {}'' = a @ js ''function'' @ b"
    by (simp only: includes_str_iff)
  from m k have
    "\<exists>ch\<in>set [\<lparr> file_name = js ''auth.ts'', diff = js ''+ export function login() {}'' \<rparr>].
       (\<exists>a b. diff ch = a @ js ''+ '' @ b) \<and>
       ((\<exists>a b. diff ch = a @ js ''function'' @ b) \<or>
        (\<exists>a b. diff ch = a @ js ''class'' @ b) \<or>
        (\<exists>a b. diff ch = a @ js ''export'' @ b))"
    by simp
  with feat_iff_marker_and_keyword_anywhere
    [of "\<lparr> changes = [\<lparr> file_name = js ''auth.ts'', diff = js ''+ export function login() {}'' \<rparr>],
            type = None \<rparr>"]
  show ?thesis by simp
qed

text \<open>
  The claim as written fails in both directions. A diff whose only keyword is on a context
  line, with an added line that has none, is classified \<open>feat\<close>; a diff whose added line
  has the keyword right after the \<open>+\<close>, with no space, is classified \<open>chore\<close>.
\<close>

theorem feat_added_line_counterexample:
  "map_sum id result_type (generateCommitMessage
      \<lparr> changes = [\<lparr> file_name = js ''a.ts'',
                      diff = js '' function f() {'' @ [LF] @ js ''+ return 1;'' \<rparr>],
        type = None \<rparr>) = Inr Feat \<and>
   \<not> spec_feat [\<lparr> file_name = js ''a.ts'',
                   diff = js '' function f() {'' @ [LF] @ js ''+ return 1;'' \<rparr>] \<and>
   map_sum id result_type (generateCommitMessage
      \<lparr> changes = [\<lparr> file_name = js ''a.ts'', diff = js ''+export const x = 1;'' \<rparr>],
        type = None \<rparr>) = Inr Chore \<and>
   spec_feat [\<lparr> file_name = js ''a.ts'', diff = js ''+export const x = 1;'' \<rparr>]"
  by code_simp

section \<open>The scope and the message header\<close>

lemma spec_scope_distinct:
  "distinct names \<Longrightarrow>
   spec_scope names =
     (if length names = 1 then spec_base_name (hd names)
      else if length names > 3 then js ''multiple''
      else if 2 \<le> length names then js ''files''
      else [])"
  by (auto simp: spec_scope_def distinct_card)

lemma js_Nil: "js [] = []"
  by (simp add: js_def)

lemma commitMessage_header:
  "\<exists>rest. commitMessage t (Some sc) cs =
     type_str t @ (if sc = [] then [] else js ''('' @ sc @ js '')'') @ js '': '' @ description t @
     [LF, LF] @ rest"
  by (simp add: commitMessage_def scopeText_def js_Nil)

text \<open>
  Claim C4. A ChangeSet names every path at most once. For such a list of changes the
  scope is the one the specification describes: for one file the part of its final path
  segment before the first period, for more than three files \<open>multiple\<close>, else for more
  than one distinct file name \<open>files\<close>, otherwise empty; and the message begins with the
  category, the scope in parentheses unless it is empty, a colon and the description,
  followed by a blank line.
\<close>

theorem scope_derivation:
  assumes "distinct (map file_name cs)"
  shows "scope cs = Inr (Some (spec_scope (map file_name cs))) \<and>
     (\<exists>r rest. generateCommitMessage \<lparr> changes = cs, type = hint \<rparr> = Inr r \<and>
        message r =
          type_str (result_type r) @
          (if spec_scope (map file_name cs) = [] then []
           else js ''('' @ spec_scope (map file_name cs) @ js '')'') @
          js '': '' @ description (result_type r) @ [LF, LF] @ rest)"
proof -
  have sc: "scope cs = Inr (Some (spec_scope (map file_name cs)))"
    using assms by (cases cs) (simp_all add: scope_eq spec_scope_distinct)
  then have "generateCommitMessage \<lparr> changes = cs, type = hint \<rparr> =
      Inr \<lparr> message = commitMessage (suggestedType \<lparr> changes = cs, type = hint \<rparr>)
                (Some (spec_scope (map file_name cs))) cs,
            result_type = suggestedType \<lparr> changes = cs, type = hint \<rparr>,
            stats = \<lparr> addedLines = count_addedLines cs, removedLines = count_removedLines cs,
                      filesChanged = int (length cs) \<rparr> \<rparr>"
    by (simp add: generateCommitMessage_def)
  then show ?thesis
    using sc commitMessage_header
      [of "suggestedType \<lparr> changes = cs, type = hint \<rparr>" "spec_scope (map file_name cs)" cs]
    by simp
qed

text \<open>The scenarios of the specification: one file, two files, four files.\<close>

theorem scope_derivation_witness:
  "distinct (map file_name [\<lparr> file_name = js ''src/auth.ts'', diff = [] \<rparr>]) \<and>
   scope [\<lparr> file_name = js ''src/auth.ts'', diff = [] \<rparr>] = Inr (Some (js ''auth'')) \<and>
   distinct (map file_name [\<lparr> file_name = js ''a.ts'', diff = [] \<rparr>,
                            \<lparr> file_name = js ''b.ts'', diff = [] \<rparr>]) \<and>
   scope [\<lparr> file_name = js ''a.ts'', diff = [] \<rparr>, \<lparr> file_name = js ''b.ts'', diff = [] \<rparr>]
     = Inr (Some (js ''files'')) \<and>
   distinct (map file_name [\<lparr> file_name = js ''a'', diff = [] \<rparr>, \<lparr> file_name = js ''b'', diff = [] \<rparr>,
                            \<lparr> file_name = js ''c'', diff = [] \<rparr>, \<lparr> file_name = js ''d'', diff = [] \<rparr>]) \<and>
   scope [\<lparr> file_name = js ''a'', diff = [] \<rparr>, \<lparr> file_name = js ''b'', diff = [] \<rparr>,
          \<lparr> file_name = js ''c'', diff = [] \<rparr>, \<lparr> file_name = js ''d'', diff = [] \<rparr>]
     = Inr (Some (js ''multiple''))"
proof -
  have d1: "distinct (map file_name [\<lparr> file_name = js ''src/auth.ts'', diff = [] \<rparr>])"
    by simp
  have d2: "distinct (map file_name [\<lparr> file_name = js ''a.ts'', diff = [] \<rparr>,
                            \<lparr> file_name = js ''b.ts'', diff = [] \<rparr>])"
    by (simp add: js_def)
  have d4: "distinct (map file_name [\<lparr> file_name = js ''a'', diff = [] \<rparr>, \<lparr> file_name = js ''b'', diff = [] \<rparr>,
                            \<lparr> file_name = js ''c'', diff = [] \<rparr>, \<lparr> file_name = js ''d'', diff = [] \<rparr>])"
    by (simp add: js_def)
  have e1: "spec_scope (map file_name [\<lparr> file_name = js ''src/auth.ts'', diff = [] \<rparr>]) = js ''auth''"
    by code_simp
  have e2: "spec_scope (map file_name [\<lparr> file_name = js ''a.ts'', diff = [] \<rparr>,
                            \<lparr> file_name = js ''b.ts'', diff = [] \<rparr>]) = js ''files''"
    by (simp add: spec_scope_def js_def)
  have e4: "spec_scope (map file_name [\<lparr> file_name = js ''a'', diff = [] \<rparr>, \<lparr> file_name = js ''b'', diff = [] \<rparr>,
                            \<lparr> file_name = js ''c'', diff = [] \<rparr>, \<lparr> file_name = js ''d'', diff = [] \<rparr>]) = js ''multiple''"
    by (simp add: spec_scope_def)
  show ?thesis
    using scope_derivation [OF d1, of None] scope_derivation [OF d2, of None]
      scope_derivation [OF d4, of None] d1 d2 d4
    by (simp only: e1 e2 e4)
qed

section \<open>Totality and the empty ChangeSet\<close>

text \<open>
  Claim C8. \<open>generateCommitMessage\<close> returns a result for every input: the one place that
  could raise, \<open>changes[0].file\<close>, is reached only when the list has one entry. For the
  empty list and no \<open>type\<close> the header is \<open>chore: update code\<close> with no scope, the stats
  are 0 files, 0 added and 0 removed lines, and the file list is empty.
\<close>

theorem generateCommitMessage_total_and_empty:
  "(\<exists>r. generateCommitMessage inp = Inr r) \<and>
   generateCommitMessage \<lparr> changes = [], type = None \<rparr> =
     Inr \<lparr> message = js ''chore: update code'' @ [LF, LF] @
                       js ''- Modified 0 file'' @ [LF] @
                       js ''- Added 0 lines, removed 0 lines'' @ [LF] @
                       js ''- Files: '',
           result_type = Chore,
           stats = \<lparr> addedLines = 0, removedLines = 0, filesChanged = 0 \<rparr> \<rparr>"
proof
  show "\<exists>r. generateCommitMessage inp = Inr r"
    by (simp add: generateCommitMessage_eq)
  show "generateCommitMessage \<lparr> changes = [], type = None \<rparr> =
     Inr \<lparr> message = js ''chore: update code'' @ [LF, LF] @
                       js ''- Modified 0 file'' @ [LF] @
                       js ''- Added 0 lines, removed 0 lines'' @ [LF] @
                       js ''- Files: '',
           result_type = Chore,
           stats = \<lparr> addedLines = 0, removedLines = 0, filesChanged = 0 \<rparr> \<rparr>"
    by code_simp
qed

text \<open>
  Claim C9. When the only changed file has a final path segment that begins with a
  period, the scope is the empty string, and the message begins with the category, a
  colon and the description, with no parenthesis between them.
\<close>

theorem dotfile_scope_empty:
  assumes "changes inp = [c]" and "final_segment (file_name c) = period # ext"
  shows "scope (changes inp) = Inr (Some []) \<and>
     (\<exists>r rest. generateCommitMessage inp = Inr r \<and>
        message r = type_str (result_type r) @ js '': '' @ description (result_type r) @
                    [LF, LF] @ rest)"
proof -
  from assms have sc: "scope (changes inp) = Inr (Some [])"
    by (simp add: scope_eq spec_base_name_def)
  then have "generateCommitMessage inp =
      Inr \<lparr> message = commitMessage (suggestedType inp) (Some []) (changes inp),
            result_type = suggestedType inp,
            stats = \<lparr> addedLines = count_addedLines (changes inp),
                      removedLines = count_removedLines (changes inp),
                      filesChanged = int (length (changes inp)) \<rparr> \<rparr>"
    by (simp add: generateCommitMessage_def)
  then show ?thesis
    using sc commitMessage_header [of "suggestedType inp" "[]" "changes inp"]
    by simp
qed

text \<open>The two examples of the claim: \<open>.gitignore\<close> and \<open>src/.env\<close>.\<close>

theorem dotfile_scope_empty_witness:
  "final_segment (js ''.gitignore'') = period # js ''gitignore'' \<and>
   final_segment (js ''src/.env'') = period # js ''env'' \<and>
   scope [\<lparr> file_name = js ''.gitignore'', diff = [] \<rparr>] = Inr (Some []) \<and>
   scope [\<lparr> file_name = js ''src/.env'', diff = [] \<rparr>] = Inr (Some [])"
proof -
  have f1: "final_segment (file_name \<lparr> file_name = js ''.gitignore'', diff = [] \<rparr>) = period # js ''gitignore''"
    by code_simp
  have f2: "final_segment (file_name \<lparr> file_name = js ''src/.env'', diff = [] \<rparr>) = period # js ''env''"
    by code_simp
  have c1: "changes \<lparr> changes = [\<lparr> file_name = js ''.gitignore'', diff = [] \<rparr>], type = None \<rparr>
      = [\<lparr> file_name = js ''.gitignore'', diff = [] \<rparr>]" by simp
  have c2: "changes \<lparr> changes = [\<lparr> file_name = js ''src/.env'', diff = [] \<rparr>], type = None \<rparr>
      = [\<lparr> file_name = js ''src/.env'', diff = [] \<rparr>]" by simp
  show ?thesis
    using dotfile_scope_empty [OF c1 f1] dotfile_scope_empty [OF c2 f2] f1 f2
    by simp
qed


section \<open>Local recovery of errors\<close>

lemma writeMarkdownReview_cases:
  "writeMarkdownReview env inp s =
     (case mkdir env (dirname env (filePath inp)) s of
        (Inl e, s1) \<Rightarrow>
          (Inr (Failure (filePath inp) (error_message e (js ''Unknown error occurred''))), s1)
      | (Inr u, s1) \<Rightarrow>
          (case writeFile env (filePath inp)
                  (fullContent (toISOString_now env s1) (markdownContent (title inp) (content inp))) s1 of
             (Inl e, s2) \<Rightarrow>
               (Inr (Failure (filePath inp) (error_message e (js ''Unknown error occurred''))), s2)
           | (Inr u', s2) \<Rightarrow>
               (Inr (Success (filePath inp)
                       (int (length (fullContent (toISOString_now env s1)
                                       (markdownContent (title inp) (content inp)))))
                       (js ''Successfully wrote '' @
                        number_toString (int (length (fullContent (toISOString_now env s1)
                                       (markdownContent (title inp) (content inp))))) @
                        js '' characters to '' @ filePath inp)), s2)))"
  by (simp add: writeMarkdownReview_def writeMarkdownReview_try_def Let_def
      split: prod.splits sum.splits)

text \<open>
  Claim C6. Whatever \<open>mkdir\<close> and \<open>writeFile\<close> do, \<open>writeMarkdownReview\<close> returns a result
  object and raises nothing. When either call throws, the result is the failure object
  with the file path and a message: the thrown error's own message, or
  \<open>Unknown error occurred\<close> for a thrown value that is not an \<open>Error\<close>. When neither throws,
  the result is the success object with the file path and the size.
\<close>

theorem writeMarkdownReview_never_raises:
  "\<exists>r s'. writeMarkdownReview env inp s = (Inr r, s') \<and>
     (success r \<longrightarrow> (\<exists>n msg. r = Success (filePath inp) n msg)) \<and>
     (\<not> success r \<longrightarrow> (\<exists>err. r = Failure (filePath inp) err)) \<and>
     (\<forall>e s1. mkdir env (dirname env (filePath inp)) s = (Inl e, s1) \<longrightarrow>
        r = Failure (filePath inp)
              (case e of ErrorObject m \<Rightarrow> m | OtherValue \<Rightarrow> js ''Unknown error occurred'')) \<and>
     (\<forall>u s1 e s2.
        mkdir env (dirname env (filePath inp)) s = (Inr u, s1) \<and>
        writeFile env (filePath inp)
          (fullContent (toISOString_now env s1) (markdownContent (title inp) (content inp))) s1
          = (Inl e, s2) \<longrightarrow>
        r = Failure (filePath inp)
              (case e of ErrorObject m \<Rightarrow> m | OtherValue \<Rightarrow> js ''Unknown error occurred'')) \<and>
     (\<forall>u s1 u' s2.
        mkdir env (dirname env (filePath inp)) s = (Inr u, s1) \<and>
        writeFile env (filePath inp)
          (fullContent (toISOString_now env s1) (markdownContent (title inp) (content inp))) s1
          = (Inr u', s2) \<longrightarrow>
        (\<exists>msg. r = Success (filePath inp)
                 (int (length (fullContent (toISOString_now env s1)
                                 (markdownContent (title inp) (content inp))))) msg))"
proof (cases "mkdir env (dirname env (filePath inp)) s")
  case (Pair r1 s1)
  show ?thesis
  proof (cases r1)
    case (Inl e)
    with Pair show ?thesis
      by (simp add: writeMarkdownReview_cases error_message_def)
  next
    case (Inr u)
    obtain r2 s2 where w: "writeFile env (filePath inp)
          (fullContent (toISOString_now env s1) (markdownContent (title inp) (content inp))) s1
          = (r2, s2)" by (cases "writeFile env (filePath inp)
          (fullContent (toISOString_now env s1) (markdownContent (title inp) (content inp))) s1")
    show ?thesis
    proof (cases r2)
      case (Inl e)
      with Pair Inr w show ?thesis
        by (simp add: writeMarkdownReview_cases error_message_def)
    next
      case r2: (Inr u')
      with Pair Inr w show ?thesis
        by (simp add: writeMarkdownReview_cases)
    qed
  qed
qed


text \<open>
  A path the process may not write, a \<open>mkdir\<close> that throws a value that is not an
  \<open>Error\<close>, and a write that succeeds.
\<close>

theorem writeMarkdownReview_never_raises_witness:
  "fst (writeMarkdownReview (mem_env (\<lambda>p. js ''.''))
          \<lparr> filePath = js ''locked.md'', content = js ''x'', title = None \<rparr>
          \<lparr> files = Map.empty, denied = (\<lambda>p. p = js ''locked.md''),
             clock = js ''2024-01-01T12:00:00.000Z'' \<rparr>)
     = Inr (Failure (js ''locked.md'') (js ''EACCES: permission denied, open'')) \<and>
   fst (writeMarkdownReview
          \<lparr> dirname = (\<lambda>p. p), mkdir = (\<lambda>d s. (Inl OtherValue, s)), toISOString_now = (\<lambda>s. []),
             writeFile = (\<lambda>p t s. (Inr (), s)) \<rparr>
          \<lparr> filePath = js ''r.md'', content = js ''x'', title = None \<rparr> (0::nat))
     = Inr (Failure (js ''r.md'') (js ''Unknown error occurred'')) \<and>
   (\<exists>msg. fst (writeMarkdownReview (mem_env (\<lambda>p. js ''.''))
          \<lparr> filePath = js ''r.md'', content = js ''x'', title = None \<rparr>
          \<lparr> files = Map.empty, denied = (\<lambda>p. p = js ''locked.md''),
             clock = js ''2024-01-01T12:00:00.000Z'' \<rparr>)
     = Inr (Success (js ''r.md'') 65 msg))"
proof -
  let ?env = "mem_env (\<lambda>p. js ''.'')"
  let ?s = "\<lparr> files = Map.empty, denied = (\<lambda>p. p = js ''locked.md''),
             clock = js ''2024-01-01T12:00:00.000Z'' \<rparr>"
  let ?locked = "\<lparr> filePath = js ''locked.md'', content = js ''x'', title = None \<rparr>"
  let ?free = "\<lparr> filePath = js ''r.md'', content = js ''x'', title = None \<rparr>"
  define env2 :: "nat fs_env" where
    "env2 = \<lparr> dirname = (\<lambda>p. p), mkdir = (\<lambda>d s. (Inl OtherValue, s)), toISOString_now = (\<lambda>s. []),
             writeFile = (\<lambda>p t s. (Inr (), s)) \<rparr>"
  have ne: "js ''.'' \<noteq> js ''locked.md''" "js ''r.md'' \<noteq> js ''locked.md''"
    by (simp_all add: js_def)
  have m: "mkdir ?env (dirname ?env (filePath ?locked)) ?s = (Inr (), ?s)"
       "mkdir ?env (dirname ?env (filePath ?free)) ?s = (Inr (), ?s)"
    using ne by (simp_all add: mem_env_def mem_mkdir_def)
  have w1: "writeFile ?env (filePath ?locked)
          (fullContent (toISOString_now ?env ?s) (markdownContent (title ?locked) (content ?locked))) ?s
          = (Inl (ErrorObject (js ''EACCES: permission denied, open'')), ?s)"
    by (simp add: mem_env_def mem_writeFile_def)
  obtain s3 where w3: "writeFile ?env (filePath ?free)
          (fullContent (toISOString_now ?env ?s) (markdownContent (title ?free) (content ?free))) ?s
          = (Inr (), s3)"
    using ne by (simp add: mem_env_def mem_writeFile_def)
  have l: "int (length (fullContent (toISOString_now ?env ?s)
              (markdownContent (title ?free) (content ?free)))) = 65"
    by (simp add: mem_env_def fullContent_def markdownContent_def js_def)
  have m2: "mkdir env2 (dirname env2 (filePath ?free)) 0 = (Inl OtherValue, 0)"
    by (simp add: env2_def)
  from writeMarkdownReview_never_raises [of ?env ?locked ?s]
  obtain r1 s1 where a1: "writeMarkdownReview ?env ?locked ?s = (Inr r1, s1)"
    and b1: "\<forall>u s1 e s2.
        mkdir ?env (dirname ?env (filePath ?locked)) ?s = (Inr u, s1) \<and>
        writeFile ?env (filePath ?locked)
          (fullContent (toISOString_now ?env s1) (markdownContent (title ?locked) (content ?locked))) s1
          = (Inl e, s2) \<longrightarrow>
        r1 = Failure (filePath ?locked)
              (case e of ErrorObject m \<Rightarrow> m | OtherValue \<Rightarrow> js ''Unknown error occurred'')"
    by (elim exE conjE) (rule that)
  from b1 m(1) w1 have "r1 = Failure (filePath ?locked)
          (case ErrorObject (js ''EACCES: permission denied, open'') of
             ErrorObject m \<Rightarrow> m | OtherValue \<Rightarrow> js ''Unknown error occurred'')"
    by blast
  with a1 have c1: "fst (writeMarkdownReview ?env ?locked ?s)
      = Inr (Failure (js ''locked.md'') (js ''EACCES: permission denied, open''))"
    by simp
  from writeMarkdownReview_never_raises [of env2 ?free 0]
  obtain r2 s2 where a2: "writeMarkdownReview env2 ?free 0 = (Inr r2, s2)"
    and b2: "\<forall>e s1. mkdir env2 (dirname env2 (filePath ?free)) 0 = (Inl e, s1) \<longrightarrow>
        r2 = Failure (filePath ?free)
              (case e of ErrorObject m \<Rightarrow> m | OtherValue \<Rightarrow> js ''Unknown error occurred'')"
    by (elim exE conjE) (rule that)
  from b2 m2 have "r2 = Failure (filePath ?free)
          (case OtherValue of ErrorObject m \<Rightarrow> m | OtherValue \<Rightarrow> js ''Unknown error occurred'')"
    by blast
  with a2 have c2: "fst (writeMarkdownReview env2 ?free 0)
      = Inr (Failure (js ''r.md'') (js ''Unknown error occurred''))"
    by simp
  from writeMarkdownReview_never_raises [of ?env ?free ?s]
  obtain r3 s3' where a3: "writeMarkdownReview ?env ?free ?s = (Inr r3, s3')"
    and b3: "\<forall>u s1 u' s2.
        mkdir ?env (dirname ?env (filePath ?free)) ?s = (Inr u, s1) \<and>
        writeFile ?env (filePath ?free)
          (fullContent (toISOString_now ?env s1) (markdownContent (title ?free) (content ?free))) s1
          = (Inr u', s2) \<longrightarrow>
        (\<exists>msg. r3 = Success (filePath ?free)
                 (int (length (fullContent (toISOString_now ?env s1)
                                 (markdownContent (title ?free) (content ?free))))) msg)"
    by (elim exE conjE) (rule that)
  from b3 m(2) w3 obtain msg where "r3 = Success (filePath ?free)
                 (int (length (fullContent (toISOString_now ?env ?s)
                                 (markdownContent (title ?free) (content ?free))))) msg"
    by blast
  with a3 l have c3: "\<exists>msg. fst (writeMarkdownReview ?env ?free ?s) = Inr (Success (js ''r.md'') 65 msg)"
    by simp
  from c1 c2 c3 show ?thesis unfolding env2_def by simp
qed


lemma getGitHistory_cases:
  "getGitHistory env inp s =
     (case simpleGit env (rootDir inp) s of
        (Inl e, s1) \<Rightarrow>
          (Inr \<lparr> commits = [],
                 history_error = Some (error_message e (js ''Failed to get git history'')) \<rparr>, s1)
      | (Inr git, s1) \<Rightarrow>
          (case git_log env git (maxCount inp) s1 of
             (Inl e, s2) \<Rightarrow>
               (Inr \<lparr> commits = [],
                      history_error = Some (error_message e (js ''Failed to get git history'')) \<rparr>, s2)
           | (Inr all, s2) \<Rightarrow>
               (Inr \<lparr> commits = map commit_of all, history_error = None \<rparr>, s2)))"
  by (simp add: getGitHistory_def getGitHistory_try_def split: prod.splits sum.splits)

text \<open>
  Claim C7. Whatever \<open>simpleGit\<close> and \<open>git.log\<close> do, \<open>getGitHistory\<close> returns a result and
  raises nothing. When either call throws, the result has no commits and an error
  description: the thrown error's own message, or \<open>Failed to get git history\<close>. When
  neither throws, the result has the commits of the log, in its order, and no error.
\<close>

theorem getGitHistory_never_raises:
  "\<exists>r s'. getGitHistory env inp s = (Inr r, s') \<and>
     (\<forall>e s1. simpleGit env (rootDir inp) s = (Inl e, s1) \<longrightarrow>
        commits r = [] \<and>
        history_error r =
          Some (case e of ErrorObject m \<Rightarrow> m | OtherValue \<Rightarrow> js ''Failed to get git history'')) \<and>
     (\<forall>git s1 e s2.
        simpleGit env (rootDir inp) s = (Inr git, s1) \<and>
        git_log env git (maxCount inp) s1 = (Inl e, s2) \<longrightarrow>
        commits r = [] \<and>
        history_error r =
          Some (case e of ErrorObject m \<Rightarrow> m | OtherValue \<Rightarrow> js ''Failed to get git history'')) \<and>
     (\<forall>git s1 all s2.
        simpleGit env (rootDir inp) s = (Inr git, s1) \<and>
        git_log env git (maxCount inp) s1 = (Inr all, s2) \<longrightarrow>
        history_error r = None \<and>
        commits r = map (\<lambda>c. \<lparr> hash = entry_hash c, date = entry_date c,
                                  commit_message = entry_message c, author = author_name c,
                                  email = author_email c \<rparr>) all)"
proof (cases "simpleGit env (rootDir inp) s")
  case (Pair r1 s1)
  show ?thesis
  proof (cases r1)
    case (Inl e)
    with Pair show ?thesis
      by (simp add: getGitHistory_cases error_message_def)
  next
    case (Inr git)
    obtain r2 s2 where l: "git_log env git (maxCount inp) s1 = (r2, s2)"
      by (cases "git_log env git (maxCount inp) s1")
    show ?thesis
    proof (cases r2)
      case (Inl e)
      with Pair Inr l show ?thesis
        by (simp add: getGitHistory_cases error_message_def)
    next
      case r2: (Inr all)
      have "map commit_of all = map (\<lambda>c. \<lparr> hash = entry_hash c, date = entry_date c,
                                  commit_message = entry_message c, author = author_name c,
                                  email = author_email c \<rparr>) all"
        by (simp add: commit_of_def)
      with Pair Inr l r2 show ?thesis
        by (simp add: getGitHistory_cases)
    qed
  qed
qed

text \<open>A directory that is not a repository, and a repository with one commit.\<close>

theorem getGitHistory_never_raises_witness:
  "fst (getGitHistory
          \<lparr> simpleGit = (\<lambda>d s. if d = js ''/tmp/none''
                                 then (Inl (ErrorObject (js ''fatal: not a git repository'')), s)
                                 else (Inr (), s)),
             git_log = (\<lambda>g n s. (Inr (take (nat n) s), s)) \<rparr>
          \<lparr> rootDir = js ''/tmp/none'', maxCount = 10 \<rparr>
          [\<lparr> entry_hash = js ''abc'', entry_date = js ''2024'', entry_message = js ''init'',
              author_name = js ''A'', author_email = js ''a@b'' \<rparr>])
     = Inr \<lparr> commits = [], history_error = Some (js ''fatal: not a git repository'') \<rparr> \<and>
   fst (getGitHistory
          \<lparr> simpleGit = (\<lambda>d s. if d = js ''/tmp/none''
                                 then (Inl (ErrorObject (js ''fatal: not a git repository'')), s)
                                 else (Inr (), s)),
             git_log = (\<lambda>g n s. (Inr (take (nat n) s), s)) \<rparr>
          \<lparr> rootDir = js ''.'', maxCount = 10 \<rparr>
          [\<lparr> entry_hash = js ''abc'', entry_date = js ''2024'', entry_message = js ''init'',
              author_name = js ''A'', author_email = js ''a@b'' \<rparr>])
     = Inr \<lparr> commits = [\<lparr> hash = js ''abc'', date = js ''2024'', commit_message = js ''init'',
                           author = js ''A'', email = js ''a@b'' \<rparr>],
             history_error = None \<rparr>"
proof -
  define env :: "(log_entry list, unit) git_env" where
    "env = \<lparr> simpleGit = (\<lambda>d s. if d = js ''/tmp/none''
                                 then (Inl (ErrorObject (js ''fatal: not a git repository'')), s)
                                 else (Inr (), s)),
             git_log = (\<lambda>g n s. (Inr (take (nat n) s), s)) \<rparr>"
  let ?h = "[\<lparr> entry_hash = js ''abc'', entry_date = js ''2024'', entry_message = js ''init'',
              author_name = js ''A'', author_email = js ''a@b'' \<rparr>]"
  let ?bad = "\<lparr> rootDir = js ''/tmp/none'', maxCount = 10 \<rparr>"
  let ?good = "\<lparr> rootDir = js ''.'', maxCount = 10 \<rparr>"
  have ne: "js ''.'' \<noteq> js ''/tmp/none''" by (simp add: js_def)
  have g1: "simpleGit env (rootDir ?bad) ?h
      = (Inl (ErrorObject (js ''fatal: not a git repository'')), ?h)" by (simp add: env_def)
  have g2: "simpleGit env (rootDir ?good) ?h = (Inr (), ?h)" using ne by (simp add: env_def)
  have g3: "git_log env () (maxCount ?good) ?h = (Inr ?h, ?h)" by (simp add: env_def)
  from getGitHistory_never_raises [of env ?bad ?h]
  obtain r1 s1 where a1: "getGitHistory env ?bad ?h = (Inr r1, s1)"
    and b1: "\<forall>e s1. simpleGit env (rootDir ?bad) ?h = (Inl e, s1) \<longrightarrow>
        commits r1 = [] \<and>
        history_error r1 =
          Some (case e of ErrorObject m \<Rightarrow> m | OtherValue \<Rightarrow> js ''Failed to get git history'')"
    by (elim exE conjE) (rule that)
  from b1 g1 have "commits r1 = [] \<and>
        history_error r1 = Some (case ErrorObject (js ''fatal: not a git repository'') of
            ErrorObject m \<Rightarrow> m | OtherValue \<Rightarrow> js ''Failed to get git history'')"
    by blast
  with a1 have c1: "fst (getGitHistory env ?bad ?h)
      = Inr \<lparr> commits = [], history_error = Some (js ''fatal: not a git repository'') \<rparr>"
    by simp
  from getGitHistory_never_raises [of env ?good ?h]
  obtain r2 s2 where a2: "getGitHistory env ?good ?h = (Inr r2, s2)"
    and b2: "\<forall>git s1 all s2.
        simpleGit env (rootDir ?good) ?h = (Inr git, s1) \<and>
        git_log env git (maxCount ?good) s1 = (Inr all, s2) \<longrightarrow>
        history_error r2 = None \<and>
        commits r2 = map (\<lambda>c. \<lparr> hash = entry_hash c, date = entry_date c,
                                  commit_message = entry_message c, author = author_name c,
                                  email = author_email c \<rparr>) all"
    by (elim exE conjE) (rule that)
  from b2 g2 g3 have "history_error r2 = None \<and>
        commits r2 = map (\<lambda>c. \<lparr> hash = entry_hash c, date = entry_date c,
                                  commit_message = entry_message c, author = author_name c,
                                  email = author_email c \<rparr>) ?h"
    by blast
  with a2 have c2: "fst (getGitHistory env ?good ?h)
      = Inr \<lparr> commits = [\<lparr> hash = js ''abc'', date = js ''2024'', commit_message = js ''init'',
                           author = js ''A'', email = js ''a@b'' \<rparr>],
             history_error = None \<rparr>"
    by simp
  from c1 c2 show ?thesis unfolding env_def by simp
qed

section \<open>The UTF-8 encoding\<close>

lemma utf8_encode_pair:
  "isHighSurrogate u \<Longrightarrow> isLowSurrogate v \<Longrightarrow>
   utf8_encode (u # v # vs) =
     utf8_of_codepoint (0x10000 + (unat u - 0xD800) * 0x400 + (unat v - 0xDC00)) @ utf8_encode vs"
  by simp

lemma utf8_encode_single:
  "\<not> (isHighSurrogate u \<and> isLowSurrogate v) \<Longrightarrow>
   utf8_encode (u # v # vs) = utf8_of_codepoint (scalar_of_unit u) @ utf8_encode (v # vs)"
  by auto

declare utf8_encode.simps(3) [simp del]

lemma utf8_encode_append:
  "xs = [] \<or> ys = [] \<or> \<not> (isHighSurrogate (last xs) \<and> isLowSurrogate (hd ys)) \<Longrightarrow>
   utf8_encode (xs @ ys) = utf8_encode xs @ utf8_encode ys"
proof (induction xs rule: utf8_encode.induct)
  case 1
  then show ?case by simp
next
  case (2 u)
  show ?case
  proof (cases ys)
    case Nil
    then show ?thesis by simp
  next
    case (Cons y ys')
    with "2.prems" have "\<not> (isHighSurrogate u \<and> isLowSurrogate y)" by simp
    with Cons show ?thesis by (simp add: utf8_encode_single)
  qed
next
  case (3 u v vs)
  show ?case
  proof (cases "isHighSurrogate u \<and> isLowSurrogate v")
    case True
    have "vs = [] \<or> ys = [] \<or> \<not> (isHighSurrogate (last vs) \<and> isLowSurrogate (hd ys))"
      using "3.prems" by (cases vs) auto
    with True "3.IH"(1) have "utf8_encode (vs @ ys) = utf8_encode vs @ utf8_encode ys" by blast
    with True show ?thesis by (simp add: utf8_encode_pair)
  next
    case False
    have "v # vs = [] \<or> ys = [] \<or> \<not> (isHighSurrogate (last (v # vs)) \<and> isLowSurrogate (hd ys))"
      using "3.prems" by auto
    with False "3.IH"(2) have "utf8_encode ((v # vs) @ ys) = utf8_encode (v # vs) @ utf8_encode ys"
      by blast
    with False show ?thesis by (simp add: utf8_encode_single)
  qed
qed

lemma LF_not_surrogate: "\<not> isHighSurrogate LF" "\<not> isLowSurrogate LF"
  by (simp_all add: isHighSurrogate_def isLowSurrogate_def LF_def)

lemma utf8_encode_LF: "utf8_encode [LF] = [0x0A]"
proof -
  have "scalar_of_unit LF = 10"
    by (simp add: scalar_of_unit_def LF_not_surrogate) (simp add: LF_def)
  then show ?thesis by (simp add: utf8_of_codepoint_def)
qed

lemma utf8_encode_snoc_LF: "utf8_encode (xs @ [LF]) = utf8_encode xs @ [0x0A]"
  using utf8_encode_append [of xs "[LF]"] utf8_encode_LF by (simp add: LF_not_surrogate)

lemma length_utf8_of_codepoint:
  "Suc 0 \<le> length (utf8_of_codepoint cp)"
  "(length (utf8_of_codepoint cp) = Suc 0) = (cp < 0x80)"
  by (simp_all add: utf8_of_codepoint_def)

lemma scalar_small: "(scalar_of_unit u < 0x80) = (u < 0x80)"
  by (auto simp: scalar_of_unit_def isHighSurrogate_def isLowSurrogate_def word_less_nat_alt word_le_nat_alt)

lemma length_pair:
  "length (utf8_of_codepoint (0x10000 + (unat u - 0xD800) * 0x400 + (unat v - 0xDC00))) = 4"
  by (simp add: utf8_of_codepoint_def)

lemma length_utf8_encode_ge: "length s \<le> length (utf8_encode s)"
proof (induction s rule: utf8_encode.induct)
  case 1
  then show ?case by simp
next
  case (2 u)
  then show ?case using length_utf8_of_codepoint(1) [of "scalar_of_unit u"] by simp
next
  case (3 u v vs)
  show ?case
  proof (cases "isHighSurrogate u \<and> isLowSurrogate v")
    case True
    with "3.IH"(1) have "length vs \<le> length (utf8_encode vs)" by blast
    with True show ?thesis by (simp add: utf8_encode_pair length_pair)
  next
    case False
    with "3.IH"(2) have "length (v # vs) \<le> length (utf8_encode (v # vs))" by blast
    with False length_utf8_of_codepoint(1) [of "scalar_of_unit u"] show ?thesis
      by (simp add: utf8_encode_single)
  qed
qed

lemma length_utf8_encode_eq:
  "(length (utf8_encode s) = length s) = (\<forall>u\<in>set s. u < 0x80)"
proof (induction s rule: utf8_encode.induct)
  case 1
  then show ?case by simp
next
  case (2 u)
  then show ?case by (simp add: length_utf8_of_codepoint(2) scalar_small)
next
  case (3 u v vs)
  show ?case
  proof (cases "isHighSurrogate u \<and> isLowSurrogate v")
    case True
    then have "\<not> u < 0x80"
      by (simp add: isHighSurrogate_def word_less_nat_alt word_le_nat_alt)
    then show ?thesis
      using True length_utf8_encode_ge [of vs] by (simp add: utf8_encode_pair length_pair)
  next
    case False
    have ge: "length (v # vs) \<le> length (utf8_encode (v # vs))"
      by (rule length_utf8_encode_ge)
    from False "3.IH"(2)
    have ih: "(length (utf8_encode (v # vs)) = length (v # vs)) = (\<forall>u\<in>set (v # vs). u < 0x80)"
      by blast
    show ?thesis
    proof (cases "u < 0x80")
      case True
      then have "length (utf8_of_codepoint (scalar_of_unit u)) = Suc 0"
        by (simp add: length_utf8_of_codepoint(2) scalar_small)
      with False True ih show ?thesis by (simp add: utf8_encode_single)
    next
      case nonascii: False
      then have "length (utf8_of_codepoint (scalar_of_unit u)) \<noteq> Suc 0"
        by (simp add: length_utf8_of_codepoint(2) scalar_small)
      then have "2 \<le> length (utf8_of_codepoint (scalar_of_unit u))"
        using length_utf8_of_codepoint(1) [of "scalar_of_unit u"] by arith
      with False nonascii ge show ?thesis by (simp add: utf8_encode_single)
    qed
  qed
qed

section \<open>The written file\<close>

lemma fullContent_parts:
  "fullContent ts (markdownContent t c) = metadata_header ts @ title_heading t @ c @ [LF]"
  by (simp add: fullContent_def markdownContent_def metadata_header_def title_heading_def
      split: option.splits)

lemma utf8_encode_after_last_LF:
  "xs \<noteq> [] \<Longrightarrow> last xs = LF \<Longrightarrow> utf8_encode (xs @ ys) = utf8_encode xs @ utf8_encode ys"
  by (rule utf8_encode_append) (simp add: LF_not_surrogate)

lemma metadata_header_last: "metadata_header ts \<noteq> []" "last (metadata_header ts) = LF"
  by (simp_all add: metadata_header_def)

lemma title_heading_last: "title_heading t \<noteq> [] \<Longrightarrow> last (title_heading t) = LF"
  by (simp add: title_heading_def split: option.splits if_splits)

lemma utf8_encode_parts:
  "utf8_encode (metadata_header ts @ title_heading t @ c @ [LF]) =
     utf8_encode (metadata_header ts) @ utf8_encode (title_heading t) @ utf8_encode c @ [0x0A]"
proof -
  have "utf8_encode (title_heading t @ c @ [LF]) =
      utf8_encode (title_heading t) @ utf8_encode (c @ [LF])"
  proof (cases "title_heading t = []")
    case True
    then show ?thesis by simp
  next
    case False
    then show ?thesis by (simp add: utf8_encode_after_last_LF title_heading_last)
  qed
  then show ?thesis
    by (simp add: utf8_encode_after_last_LF metadata_header_last utf8_encode_snoc_LF)
qed

lemma mem_write_success:
  assumes "\<not> denied s (dn (filePath inp))" and "\<not> denied s (filePath inp)"
  shows "writeMarkdownReview (mem_env dn) inp s =
     (Inr (Success (filePath inp)
             (int (length (metadata_header (clock s) @ title_heading (title inp) @ content inp @ [LF])))
             (js ''Successfully wrote '' @
              number_toString (int (length (metadata_header (clock s) @ title_heading (title inp) @
                                             content inp @ [LF]))) @
              js '' characters to '' @ filePath inp)),
      s\<lparr> files := (files s)(filePath inp :=
            Some (utf8_encode (metadata_header (clock s)) @ utf8_encode (title_heading (title inp)) @
                  utf8_encode (content inp) @ [0x0A])) \<rparr>)"
  using assms
  by (simp add: writeMarkdownReview_cases mem_env_def mem_mkdir_def mem_writeFile_def
      fullContent_parts utf8_encode_parts)

lemma ascii_metadata_header:
  "(\<forall>u\<in>set (metadata_header ts). u < 0x80) = (\<forall>u\<in>set ts. u < 0x80)"
  by (auto simp: metadata_header_def js_def LF_def)

lemma ascii_title_heading:
  "(\<forall>u\<in>set (title_heading t). u < 0x80) =
   (\<forall>u\<in>set (case t of None \<Rightarrow> [] | Some ttl \<Rightarrow> ttl). u < 0x80)"
proof (cases t)
  case None
  then show ?thesis by (simp add: title_heading_def)
next
  case (Some ttl)
  show ?thesis
  proof (cases "ttl = []")
    case True
    with Some show ?thesis by (simp add: title_heading_def)
  next
    case False
    with Some show ?thesis by (auto simp: title_heading_def js_def LF_def)
  qed
qed

text \<open>
  Claim C10. For every input and every file system, the one text that
  \<open>writeMarkdownReview\<close> hands to \<open>writeFile\<close> is the metadata block, the title heading
  (present when a non-empty title was supplied), the content and a final line feed,
  whether or not the content ends with one; and the size returned on success is the
  length of the three parts plus one, for the line feed. On the in-memory file system,
  when the directory and the file can be written, the file then holds the encoding of
  the three parts followed by the newline byte.
\<close>

theorem written_text_ends_with_newline:
  "writeMarkdownReview env inp s =
     (case mkdir env (dirname env (filePath inp)) s of
        (Inl e, s1) \<Rightarrow>
          (Inr (Failure (filePath inp) (error_message e (js ''Unknown error occurred''))), s1)
      | (Inr u, s1) \<Rightarrow>
          (case writeFile env (filePath inp)
                  (metadata_header (toISOString_now env s1) @ title_heading (title inp) @
                   content inp @ [LF]) s1 of
             (Inl e, s2) \<Rightarrow>
               (Inr (Failure (filePath inp) (error_message e (js ''Unknown error occurred''))), s2)
           | (Inr u', s2) \<Rightarrow>
               (Inr (Success (filePath inp)
                       (int (length (metadata_header (toISOString_now env s1))) +
                        int (length (title_heading (title inp))) +
                        int (length (content inp)) + 1)
                       (js ''Successfully wrote '' @
                        number_toString
                          (int (length (metadata_header (toISOString_now env s1))) +
                           int (length (title_heading (title inp))) +
                           int (length (content inp)) + 1) @
                        js '' characters to '' @ filePath inp)), s2))) \<and>
   (\<not> denied m (dn (filePath inp)) \<and> \<not> denied m (filePath inp) \<longrightarrow>
      (\<exists>msg m'.
         writeMarkdownReview (mem_env dn) inp m =
           (Inr (Success (filePath inp)
                   (int (length (metadata_header (clock m))) +
                    int (length (title_heading (title inp))) +
                    int (length (content inp)) + 1) msg), m') \<and>
         files m' (filePath inp) =
           Some (utf8_encode (metadata_header (clock m)) @
                 utf8_encode (title_heading (title inp)) @
                 utf8_encode (content inp) @ [0x0A])))"
proof
  have len: "int (length (metadata_header ts @ title_heading (title inp) @ content inp @ [LF])) =
      int (length (metadata_header ts)) + int (length (title_heading (title inp))) +
      int (length (content inp)) + 1" for ts
    by simp
  show "writeMarkdownReview env inp s =
     (case mkdir env (dirname env (filePath inp)) s of
        (Inl e, s1) \<Rightarrow>
          (Inr (Failure (filePath inp) (error_message e (js ''Unknown error occurred''))), s1)
      | (Inr u, s1) \<Rightarrow>
          (case writeFile env (filePath inp)
                  (metadata_header (toISOString_now env s1) @ title_heading (title inp) @
                   content inp @ [LF]) s1 of
             (Inl e, s2) \<Rightarrow>
               (Inr (Failure (filePath inp) (error_message e (js ''Unknown error occurred''))), s2)
           | (Inr u', s2) \<Rightarrow>
               (Inr (Success (filePath inp)
                       (int (length (metadata_header (toISOString_now env s1))) +
                        int (length (title_heading (title inp))) +
                        int (length (content inp)) + 1)
                       (js ''Successfully wrote '' @
                        number_toString
                          (int (length (metadata_header (toISOString_now env s1))) +
                           int (length (title_heading (title inp))) +
                           int (length (content inp)) + 1) @
                        js '' characters to '' @ filePath inp)), s2)))"
    unfolding writeMarkdownReview_cases fullContent_parts len ..
  show "\<not> denied m (dn (filePath inp)) \<and> \<not> denied m (filePath inp) \<longrightarrow>
      (\<exists>msg m'.
         writeMarkdownReview (mem_env dn) inp m =
           (Inr (Success (filePath inp)
                   (int (length (metadata_header (clock m))) +
                    int (length (title_heading (title inp))) +
                    int (length (content inp)) + 1) msg), m') \<and>
         files m' (filePath inp) =
           Some (utf8_encode (metadata_header (clock m)) @
                 utf8_encode (title_heading (title inp)) @
                 utf8_encode (content inp) @ [0x0A]))"
    using mem_write_success [of m dn inp] by simp
qed

text \<open>
  Claim C5, as the code has it. After a write that succeeds, stripping the metadata block
  and the title heading from the bytes of the file leaves the encoding of the content
  followed by one newline byte. The size returned is the number of UTF-16 code units of
  the text written; it is at most the number of bytes of the file, and equal to it
  exactly when the timestamp, the title and the content are ASCII.
\<close>

theorem roundtrip_body_and_size:
  assumes "\<not> denied s (dn (filePath inp))" and "\<not> denied s (filePath inp)"
  shows "\<exists>n msg s' bytes.
     writeMarkdownReview (mem_env dn) inp s = (Inr (Success (filePath inp) n msg), s') \<and>
     files s' (filePath inp) = Some bytes \<and>
     strip_prefix (utf8_encode (metadata_header (clock s)) @ utf8_encode (title_heading (title inp)))
        bytes = Some (utf8_encode (content inp) @ [0x0A]) \<and>
     n = int (length (metadata_header (clock s) @ title_heading (title inp) @ content inp @ [LF])) \<and>
     n \<le> int (length bytes) \<and>
     ((n = int (length bytes)) =
        (\<forall>u\<in>set (clock s @ (case title inp of None \<Rightarrow> [] | Some ttl \<Rightarrow> ttl) @ content inp).
            u < 0x80))"
proof -
  let ?text = "metadata_header (clock s) @ title_heading (title inp) @ content inp @ [LF]"
  let ?bytes = "utf8_encode (metadata_header (clock s)) @ utf8_encode (title_heading (title inp)) @
                  utf8_encode (content inp) @ [0x0A]"
  have b: "?bytes = utf8_encode ?text" by (simp add: utf8_encode_parts)
  have strip: "strip_prefix (utf8_encode (metadata_header (clock s)) @
        utf8_encode (title_heading (title inp))) ?bytes = Some (utf8_encode (content inp) @ [0x0A])"
    by (simp add: strip_prefix_def)
  have le: "int (length ?text) \<le> int (length ?bytes)"
    unfolding b using length_utf8_encode_ge [of ?text] by simp
  have "(length ?bytes = length ?text) = (\<forall>u\<in>set ?text. u < 0x80)"
    unfolding b by (rule length_utf8_encode_eq)
  also have "\<dots> = (\<forall>u\<in>set (clock s @ (case title inp of None \<Rightarrow> [] | Some ttl \<Rightarrow> ttl) @ content inp).
            u < 0x80)"
    using ascii_metadata_header [of "clock s"] ascii_title_heading [of "title inp"]
    by (auto simp: LF_def)
  finally have eq: "(int (length ?text) = int (length ?bytes)) =
      (\<forall>u\<in>set (clock s @ (case title inp of None \<Rightarrow> [] | Some ttl \<Rightarrow> ttl) @ content inp).
            u < 0x80)" by auto
  show ?thesis
    using mem_write_success [of s dn inp] assms strip le eq
    by (intro exI [of _ "int (length ?text)"] exI [of _ "js ''Successfully wrote '' @
              number_toString (int (length ?text)) @ js '' characters to '' @ filePath inp"]
        exI [of _ "s\<lparr> files := (files s)(filePath inp := Some ?bytes) \<rparr>"] exI [of _ ?bytes])
      simp
qed

text \<open>
  The claim as written fails on both counts. For the content \<open>U+00E9\<close> with the title
  \<open>T\<close>, what is left after stripping is the content and a newline, not the content; and
  the size returned is 70 where the file has 71 bytes.
\<close>

theorem roundtrip_counterexample:
  "fst (writeMarkdownReview (mem_env (\<lambda>p. js ''.''))
          \<lparr> filePath = js ''r.md'', content = [0xE9], title = Some (js ''T'') \<rparr>
          \<lparr> files = Map.empty, denied = (\<lambda>p. False), clock = js ''2024-01-01T12:00:00.000Z'' \<rparr>)
     = Inr (Success (js ''r.md'') 70 (js ''Successfully wrote 70 characters to r.md'')) \<and>
   map_option length
     (files (snd (writeMarkdownReview (mem_env (\<lambda>p. js ''.''))
          \<lparr> filePath = js ''r.md'', content = [0xE9], title = Some (js ''T'') \<rparr>
          \<lparr> files = Map.empty, denied = (\<lambda>p. False), clock = js ''2024-01-01T12:00:00.000Z'' \<rparr>))
        (js ''r.md'')) = Some 71 \<and>
   Option.bind
     (files (snd (writeMarkdownReview (mem_env (\<lambda>p. js ''.''))
          \<lparr> filePath = js ''r.md'', content = [0xE9], title = Some (js ''T'') \<rparr>
          \<lparr> files = Map.empty, denied = (\<lambda>p. False), clock = js ''2024-01-01T12:00:00.000Z'' \<rparr>))
        (js ''r.md''))
     (strip_prefix (utf8_encode (metadata_header (js ''2024-01-01T12:00:00.000Z'')) @
                    utf8_encode (title_heading (Some (js ''T'')))))
     = Some (utf8_encode [0xE9] @ [0x0A]) \<and>
   utf8_encode [0xE9] @ [0x0A] \<noteq> utf8_encode [0xE9]"
  by code_simp

text \<open>An ASCII review: 73 code units and 73 bytes.\<close>

theorem roundtrip_body_and_size_witness:
  "\<not> denied \<lparr> files = Map.empty, denied = (\<lambda>p. False), clock = js ''2024-01-01T12:00:00.000Z'' \<rparr>
       ((\<lambda>p. js ''.'') (js ''r.md'')) \<and>
   \<not> denied \<lparr> files = Map.empty, denied = (\<lambda>p. False), clock = js ''2024-01-01T12:00:00.000Z'' \<rparr>
       (js ''r.md'') \<and>
   (\<exists>msg s' bytes.
      writeMarkdownReview (mem_env (\<lambda>p. js ''.''))
          \<lparr> filePath = js ''r.md'', content = js ''LGTM'', title = Some (js ''T'') \<rparr>
          \<lparr> files = Map.empty, denied = (\<lambda>p. False), clock = js ''2024-01-01T12:00:00.000Z'' \<rparr>
        = (Inr (Success (js ''r.md'') 73 msg), s') \<and>
      files s' (js ''r.md'') = Some bytes \<and>
      strip_prefix (utf8_encode (metadata_header (js ''2024-01-01T12:00:00.000Z'')) @
                    utf8_encode (title_heading (Some (js ''T'')))) bytes
        = Some (utf8_encode (js ''LGTM'') @ [0x0A]) \<and>
      int (length bytes) = 73)"
proof -
  have a: "(\<forall>u\<in>set (js ''2024-01-01T12:00:00.000Z'' @ js ''T'' @ js ''LGTM''). u < 0x80)"
    by (simp add: js_def)
  have l: "int (length (metadata_header (js ''2024-01-01T12:00:00.000Z'') @
                        title_heading (Some (js ''T'')) @ js ''LGTM'' @ [LF])) = 73"
    by (simp add: metadata_header_def title_heading_def js_def)
  let ?s = "\<lparr> files = Map.empty, denied = (\<lambda>p. False), clock = js ''2024-01-01T12:00:00.000Z'' \<rparr>"
  let ?inp = "\<lparr> filePath = js ''r.md'', content = js ''LGTM'', title = Some (js ''T'') \<rparr>"
  have d1: "\<not> denied ?s (js ''.'')" by simp
  have d2: "\<not> denied ?s (filePath ?inp)" by simp
  from roundtrip_body_and_size [of ?s "\<lambda>p. js ''.''" ?inp, OF d1 d2]
  obtain n msg s' bytes where
    w: "writeMarkdownReview (mem_env (\<lambda>p. js ''.'')) ?inp ?s = (Inr (Success (filePath ?inp) n msg), s')"
    and f: "files s' (filePath ?inp) = Some bytes"
    and st: "strip_prefix (utf8_encode (metadata_header (clock ?s)) @
                    utf8_encode (title_heading (title ?inp))) bytes
        = Some (utf8_encode (content ?inp) @ [0x0A])"
    and n: "n = int (length (metadata_header (clock ?s) @ title_heading (title ?inp) @ content ?inp @ [LF]))"
    and eq: "(n = int (length bytes)) =
        (\<forall>u\<in>set (clock ?s @ (case title ?inp of None \<Rightarrow> [] | Some ttl \<Rightarrow> ttl) @ content ?inp).
            u < 0x80)"
    by blast
  from n l have n73: "n = 73" by simp
  from eq a n73 have "int (length bytes) = 73" by simp
  with w f st n73 show ?thesis by simp
qed

text \<open>A content that does not end with a newline.\<close>

theorem written_text_ends_with_newline_witness:
  "\<not> denied \<lparr> files = Map.empty, denied = (\<lambda>p. False), clock = js ''2024-01-01T12:00:00.000Z'' \<rparr>
       (js ''.'') \<and>
   \<not> denied \<lparr> files = Map.empty, denied = (\<lambda>p. False), clock = js ''2024-01-01T12:00:00.000Z'' \<rparr>
       (js ''r.md'') \<and>
   (\<exists>msg m'.
      writeMarkdownReview (mem_env (\<lambda>p. js ''.''))
          \<lparr> filePath = js ''r.md'', content = js ''no newline'', title = None \<rparr>
          \<lparr> files = Map.empty, denied = (\<lambda>p. False), clock = js ''2024-01-01T12:00:00.000Z'' \<rparr>
        = (Inr (Success (js ''r.md'') 74 msg), m') \<and>
      files m' (js ''r.md'') =
        Some (utf8_encode (metadata_header (js ''2024-01-01T12:00:00.000Z'')) @
              utf8_encode (js ''no newline'') @ [0x0A]))"
proof -
  let ?m = "\<lparr> files = Map.empty, denied = (\<lambda>p. False), clock = js ''2024-01-01T12:00:00.000Z'' \<rparr>"
  let ?inp = "\<lparr> filePath = js ''r.md'', content = js ''no newline'', title = None \<rparr>"
  have l: "int (length (metadata_header (js ''2024-01-01T12:00:00.000Z''))) +
           int (length (title_heading None)) + int (length (js ''no newline'')) + 1 = 74"
    by (simp add: metadata_header_def title_heading_def js_def)
  have t: "utf8_encode (title_heading None) = []"
    by (simp add: title_heading_def)
  have d: "\<not> denied ?m (js ''.'') \<and> \<not> denied ?m (filePath ?inp)" by simp
  from written_text_ends_with_newline [where m = ?m and dn = "\<lambda>p. js ''.''" and inp = ?inp]
  have "\<not> denied ?m (js ''.'') \<and> \<not> denied ?m (filePath ?inp) \<longrightarrow>
      (\<exists>msg m'.
         writeMarkdownReview (mem_env (\<lambda>p. js ''.'')) ?inp ?m =
           (Inr (Success (filePath ?inp)
                   (int (length (metadata_header (clock ?m))) +
                    int (length (title_heading (title ?inp))) +
                    int (length (content ?inp)) + 1) msg), m') \<and>
         files m' (filePath ?inp) =
           Some (utf8_encode (metadata_header (clock ?m)) @
                 utf8_encode (title_heading (title ?inp)) @
                 utf8_encode (content ?inp) @ [0x0A]))"
    by (rule conjunct2)
  with d show ?thesis by (simp add: l t)
qed

end
